theory Spec2Isabelle
  imports Complex_Main
begin

section \<open>The JavaScript Map, as the server uses it\<close>

text \<open>
  A JavaScript \<open>Map\<close> keeps its entries in insertion order and holds every key at most
  once. It is modelled as an association list in insertion order:
  \<^item> \<open>get\<close> returns the entry stored under the key (\<open>undefined\<close> is \<open>None\<close>);
  \<^item> \<open>set\<close> on a key that is present replaces the value where it stands, on a new key
    it appends the entry;
  \<^item> \<open>delete\<close> removes the entry and returns whether there was one;
  \<^item> \<open>values\<close> lists the values in insertion order.
\<close>

type_synonym ('k, 'v) jsmap = "('k \<times> 'v) list"

fun Map_get :: "('k, 'v) jsmap \<Rightarrow> 'k \<Rightarrow> 'v option" where
  "Map_get [] k = None"
| "Map_get ((a, b) # ps) k = (if a = k then Some b else Map_get ps k)"

definition Map_has :: "('k, 'v) jsmap \<Rightarrow> 'k \<Rightarrow> bool" where
  "Map_has m k = (Map_get m k \<noteq> None)"

fun Map_set :: "'k \<Rightarrow> 'v \<Rightarrow> ('k, 'v) jsmap \<Rightarrow> ('k, 'v) jsmap" where
  "Map_set k v [] = [(k, v)]"
| "Map_set k v ((a, b) # ps) = (if a = k then (k, v) # ps else (a, b) # Map_set k v ps)"

fun Map_remove :: "'k \<Rightarrow> ('k, 'v) jsmap \<Rightarrow> ('k, 'v) jsmap" where
  "Map_remove k [] = []"
| "Map_remove k ((a, b) # ps) = (if a = k then ps else (a, b) # Map_remove k ps)"

definition Map_delete :: "'k \<Rightarrow> ('k, 'v) jsmap \<Rightarrow> bool \<times> ('k, 'v) jsmap" where
  "Map_delete k m = (Map_has m k, Map_remove k m)"

definition Map_values :: "('k, 'v) jsmap \<Rightarrow> 'v list" where
  "Map_values m = map snd m"

section \<open>The room store (server/src/rooms/RoomManager.ts)\<close>

text \<open>
  \<open>RoomObject\<close> and \<open>ObjectPosition\<close> of types/socket-events.ts. The fields \<open>id\<close>, \<open>x\<close>,
  \<open>y\<close>, \<open>type\<close> carry the prefix \<open>obj_\<close> (\<open>pos_\<close> for a position), since \<open>id\<close> is a
  constant of HOL. A JavaScript number is a \<open>real\<close> here: the store only copies
  coordinates.
\<close>

record ObjectPosition =
  pos_x :: real
  pos_y :: real

record RoomObject =
  obj_id :: string
  obj_x :: real
  obj_y :: real
  obj_type :: string

record RoomState =
  roomId :: string
  objects :: "(string, RoomObject) jsmap"

text \<open>The class has the one field \<open>rooms\<close>, a Map from room id to RoomState.\<close>

type_synonym RoomManager = "(string, RoomState) jsmap"

definition new_RoomManager :: RoomManager where
  "new_RoomManager = []"

text \<open>
  \<open>getOrCreateRoom\<close> returns the room and the store, in which the room has been created
  if it was absent.
\<close>

definition getOrCreateRoom :: "RoomManager \<Rightarrow> string \<Rightarrow> RoomState \<times> RoomManager" where
  "getOrCreateRoom rooms rid =
     (case Map_get rooms rid of
        Some room \<Rightarrow> (room, rooms)
      | None \<Rightarrow>
          (let room = \<lparr>roomId = rid, objects = []\<rparr> in (room, Map_set rid room rooms)))"

text \<open>
  The source mutates the room's \<open>objects\<close> Map in place; the room is reachable only
  through \<open>rooms\<close>, so the model writes the changed room back under its key. The
  source stores the caller's object itself and \<open>updateObjectPosition\<close> writes into it;
  the model stores its value, as for the relay, which adds a payload that nothing else
  holds.
\<close>

definition addObject :: "RoomManager \<Rightarrow> string \<Rightarrow> RoomObject \<Rightarrow> RoomManager" where
  "addObject rooms rid object =
     (case getOrCreateRoom rooms rid of
        (room, rooms') \<Rightarrow>
          Map_set rid (room\<lparr>objects := Map_set (obj_id object) object (objects room)\<rparr>) rooms')"

definition updateObjectPosition ::
    "RoomManager \<Rightarrow> string \<Rightarrow> string \<Rightarrow> ObjectPosition \<Rightarrow> bool \<times> RoomManager" where
  "updateObjectPosition rooms rid objectId position =
     (case Map_get rooms rid of
        None \<Rightarrow> (False, rooms)
      | Some room \<Rightarrow>
          (case Map_get (objects room) objectId of
             None \<Rightarrow> (False, rooms)
           | Some object \<Rightarrow>
               (True,
                Map_set rid
                  (room\<lparr>objects :=
                     Map_set objectId
                       (object\<lparr>obj_x := pos_x position, obj_y := pos_y position\<rparr>)
                       (objects room)\<rparr>)
                  rooms)))"

definition deleteObject :: "RoomManager \<Rightarrow> string \<Rightarrow> string \<Rightarrow> bool \<times> RoomManager" where
  "deleteObject rooms rid objectId =
     (case Map_get rooms rid of
        None \<Rightarrow> (False, rooms)
      | Some room \<Rightarrow>
          (case Map_delete objectId (objects room) of
             (existed, objs) \<Rightarrow> (existed, Map_set rid (room\<lparr>objects := objs\<rparr>) rooms)))"

definition getRoomObjects :: "RoomManager \<Rightarrow> string \<Rightarrow> RoomObject list" where
  "getRoomObjects rooms rid =
     (case Map_get rooms rid of
        None \<Rightarrow> []
      | Some room \<Rightarrow> Map_values (objects room))"

definition deleteRoom :: "RoomManager \<Rightarrow> string \<Rightarrow> RoomManager" where
  "deleteRoom rooms rid = Map_remove rid rooms"

definition hasRoom :: "RoomManager \<Rightarrow> string \<Rightarrow> bool" where
  "hasRoom rooms rid = Map_has rooms rid"

section \<open>Operation sequences on one room, and the reference map\<close>

text \<open>
  The three mutations of a room, as data, and their application through the store.
\<close>

datatype store_op = Create RoomObject | Update string ObjectPosition | Delete string

fun apply_op :: "string \<Rightarrow> RoomManager \<Rightarrow> store_op \<Rightarrow> RoomManager" where
  "apply_op rid rooms (Create object) = addObject rooms rid object"
| "apply_op rid rooms (Update objectId position) =
     snd (updateObjectPosition rooms rid objectId position)"
| "apply_op rid rooms (Delete objectId) = snd (deleteObject rooms rid objectId)"

definition apply_ops :: "string \<Rightarrow> RoomManager \<Rightarrow> store_op list \<Rightarrow> RoomManager" where
  "apply_ops rid rooms ops = foldl (apply_op rid) rooms ops"

text \<open>
  The reference model, following the specification's words: an in-memory map from id to
  object; create inserts or overwrites by id, update changes the position of an object
  that is present and is a no-op otherwise, delete removes the id.
\<close>

fun reference_step :: "(string \<rightharpoonup> RoomObject) \<Rightarrow> store_op \<Rightarrow> (string \<rightharpoonup> RoomObject)" where
  "reference_step m (Create object) = m(obj_id object \<mapsto> object)"
| "reference_step m (Update objectId position) =
     (case m objectId of
        None \<Rightarrow> m
      | Some object \<Rightarrow> m(objectId \<mapsto> object\<lparr>obj_x := pos_x position, obj_y := pos_y position\<rparr>))"
| "reference_step m (Delete objectId) = m(objectId := None)"

definition reference_fold :: "store_op list \<Rightarrow> (string \<rightharpoonup> RoomObject)" where
  "reference_fold ops = foldl reference_step Map.empty ops"

text \<open>
  A listing read as a map from id to object, for the comparison with the reference map.
\<close>

definition by_id :: "RoomObject list \<Rightarrow> (string \<rightharpoonup> RoomObject)" where
  "by_id xs = map_of (map (\<lambda>object. (obj_id object, object)) xs)"

text \<open>The object Map of a room; empty when the store has no such room.\<close>

definition room_objs :: "RoomManager \<Rightarrow> string \<Rightarrow> (string, RoomObject) jsmap" where
  "room_objs rooms rid = (case Map_get rooms rid of None \<Rightarrow> [] | Some room \<Rightarrow> objects room)"

text \<open>
  The invariant of a room's object Map: keys are distinct, and every object is stored
  under its own id.
\<close>

definition keyed_by_id :: "(string, RoomObject) jsmap \<Rightarrow> bool" where
  "keyed_by_id objs \<longleftrightarrow> distinct (map fst objs) \<and> (\<forall>(k, object) \<in> set objs. obj_id object = k)"

section \<open>The relay (server/dist/index.js)\<close>

text \<open>
  The events of types/socket-events.ts. The fields of \<open>UpdateObjectPayload\<close> carry the
  prefix \<open>payload_\<close>; a \<open>DeleteObjectPayload\<close> has the one field \<open>objectId\<close> and is
  that string. \<open>disconnect\<close> is the event socket.io raises itself.
\<close>

record UpdateObjectPayload =
  payload_objectId :: string
  payload_position :: ObjectPosition

datatype client_event =
    join_room string
  | update_object UpdateObjectPayload
  | create_object RoomObject
  | delete_object string
  | ping
  | disconnect

datatype server_event =
    room_state "RoomObject list"
  | object_updated UpdateObjectPayload
  | object_created RoomObject
  | object_deleted string
  | pong

text \<open>
  What a handler does besides changing state: an emission of an event to a set of
  sockets, or a console line.
\<close>

datatype effect =
    Emit "string set" server_event
  | Console_log string
  | Console_warn string

text \<open>
  A handler closes over its \<open>socket\<close> (the id and \<open>socket.data.roomId\<close>, \<open>undefined\<close>
  until the socket joins) and uses the module's \<open>roomManager\<close> and the rooms of
  socket.io, which map a room name to the ids of the sockets that joined it.
\<close>

record Socket =
  socket_id :: string
  data_roomId :: "string option"

record Server =
  roomManager :: RoomManager
  adapter_rooms :: "string \<Rightarrow> string set"

text \<open>
  The guard \<open>if (!roomId)\<close> of the mutation handlers lets a room id through when it is
  neither \<open>undefined\<close> nor the empty string.
\<close>

definition truthy_roomId :: "Socket \<Rightarrow> string option" where
  "truthy_roomId socket =
     (case data_roomId socket of
        None \<Rightarrow> None
      | Some rid \<Rightarrow> if rid = [] then None else Some rid)"

text \<open>
  \<open>socket.to(roomId)\<close> of socket.io addresses every socket of the room but the socket
  itself; \<open>socket.emit\<close> addresses the socket alone.
\<close>

definition to_room :: "Socket \<Rightarrow> Server \<Rightarrow> string \<Rightarrow> string set" where
  "to_room socket server rid = adapter_rooms server rid - {socket_id socket}"

text \<open>
  One handler per event registered in \<open>io.on('connection')\<close>: \<open>join_room\<close>,
  \<open>update_object\<close>, \<open>create_object\<close>, \<open>ping\<close>, \<open>disconnect\<close>. No handler is registered
  for \<open>delete_object\<close>, and socket.io drops an event that has no listener. On
  \<open>disconnect\<close> socket.io takes the socket out of its rooms.
\<close>

fun on_event :: "client_event \<Rightarrow> Socket \<Rightarrow> Server \<Rightarrow> Socket \<times> Server \<times> effect list" where
  "on_event (join_room rid) socket server =
     (case getOrCreateRoom (roomManager server) rid of
        (room, rooms') \<Rightarrow>
          (socket\<lparr>data_roomId := Some rid\<rparr>,
           server\<lparr>roomManager := rooms',
                  adapter_rooms :=
                    (adapter_rooms server)
                      (rid := insert (socket_id socket) (adapter_rooms server rid))\<rparr>,
           [Emit {socket_id socket} (room_state (getRoomObjects rooms' rid)),
            Console_log (''User '' @ socket_id socket @ '' joined room '' @ rid)]))"
| "on_event (update_object payload) socket server =
     (case truthy_roomId socket of
        None \<Rightarrow>
          (socket, server,
           [Console_warn (''User '' @ socket_id socket
                          @ '' tried to update object without joining a room'')])
      | Some rid \<Rightarrow>
          (case updateObjectPosition (roomManager server) rid
                  (payload_objectId payload) (payload_position payload) of
             (updated, rooms') \<Rightarrow>
               (socket, server\<lparr>roomManager := rooms'\<rparr>,
                if updated then [Emit (to_room socket server rid) (object_updated payload)]
                else [])))"
| "on_event (create_object payload) socket server =
     (case truthy_roomId socket of
        None \<Rightarrow>
          (socket, server,
           [Console_warn (''User '' @ socket_id socket
                          @ '' tried to create object without joining a room'')])
      | Some rid \<Rightarrow>
          (socket, server\<lparr>roomManager := addObject (roomManager server) rid payload\<rparr>,
           [Emit (to_room socket server rid) (object_created payload)]))"
| "on_event (delete_object objectId) socket server = (socket, server, [])"
| "on_event ping socket server =
     (socket, server,
      [Console_log (''Received ping from '' @ socket_id socket), Emit {socket_id socket} pong])"
| "on_event disconnect socket server =
     (socket,
      server\<lparr>adapter_rooms := (\<lambda>rid. adapter_rooms server rid - {socket_id socket})\<rparr>,
      [Console_log (''User disconnected: '' @ socket_id socket)])"

text \<open>The emissions among the effects, and the events a given socket receives.\<close>

fun emits :: "effect list \<Rightarrow> (string set \<times> server_event) list" where
  "emits [] = []"
| "emits (Emit R e # outs) = (R, e) # emits outs"
| "emits (_ # outs) = emits outs"

definition received_by :: "string \<Rightarrow> effect list \<Rightarrow> server_event list" where
  "received_by sid outs = map snd (filter (\<lambda>(R, e). sid \<in> R) (emits outs))"


definition event_effects :: "client_event \<Rightarrow> Socket \<Rightarrow> Server \<Rightarrow> effect list" where
  "event_effects ev socket server = snd (snd (on_event ev socket server))"

definition store_after :: "client_event \<Rightarrow> Socket \<Rightarrow> Server \<Rightarrow> RoomManager" where
  "store_after ev socket server = roomManager (fst (snd (on_event ev socket server)))"

text \<open>
  A concrete configuration: room \<open>r1\<close> holds the object \<open>o1\<close>, and the sockets \<open>a\<close> and
  \<open>b\<close> have joined it.
\<close>

definition sock_a :: Socket where
  "sock_a = \<lparr>socket_id = ''a'', data_roomId = Some ''r1''\<rparr>"

definition obj1 :: RoomObject where
  "obj1 = \<lparr>obj_id = ''o1'', obj_x = 10, obj_y = 10, obj_type = ''x''\<rparr>"

definition server1 :: Server where
  "server1 = \<lparr>roomManager = addObject new_RoomManager ''r1'' obj1,
               adapter_rooms = (\<lambda>rid. if rid = ''r1'' then {''a'', ''b''} else {})\<rparr>"

section \<open>The undo/redo history (useCanvasHistory)\<close>

text \<open>
  The hook keeps the current objects in React state and the two stacks in refs; the last
  element of a stack is its top. A snapshot is a list of canvas objects, whose type the
  hook never inspects.

  \<open>pushState\<close>, \<open>undo\<close> and \<open>redo\<close> are built by \<open>useCallback\<close> with the dependency
  \<open>objects\<close>: the snapshot they push is the \<open>objects\<close> of the render that built the
  callback, while the stacks, being refs, are read as they are at the call. That snapshot
  is the parameter \<open>captured\<close>. \<open>hist_objects\<close> is the value last given to
  \<open>setObjects\<close>, which the next render shows. Two actions called from the callbacks of
  one render have the same \<open>captured\<close>; an action called after the hook has rendered
  again has \<open>captured\<close> equal to \<open>hist_objects\<close>.
\<close>

definition MAX_HISTORY_SIZE :: nat where
  "MAX_HISTORY_SIZE = 20"

record 'o CanvasHistory =
  hist_objects :: "'o list"
  undoStack :: "'o list list"
  redoStack :: "'o list list"

text \<open>
  \<open>xs.slice(-n)\<close> for \<open>n > 0\<close>: the last \<open>n\<close> elements, all of them when there are
  fewer. \<open>xs.slice(0, -1)\<close> is \<open>butlast\<close>.
\<close>

definition slice_from_end :: "nat \<Rightarrow> 'a list \<Rightarrow> 'a list" where
  "slice_from_end n xs = drop (length xs - n) xs"

definition useCanvasHistory :: "'o list \<Rightarrow> 'o CanvasHistory" where
  "useCanvasHistory initialObjects =
     \<lparr>hist_objects = initialObjects, undoStack = [], redoStack = []\<rparr>"

definition canUndo :: "'o CanvasHistory \<Rightarrow> bool" where
  "canUndo h \<longleftrightarrow> length (undoStack h) > 0"

definition canRedo :: "'o CanvasHistory \<Rightarrow> bool" where
  "canRedo h \<longleftrightarrow> length (redoStack h) > 0"

definition undoCount :: "'o CanvasHistory \<Rightarrow> nat" where
  "undoCount h = length (undoStack h)"

definition redoCount :: "'o CanvasHistory \<Rightarrow> nat" where
  "redoCount h = length (redoStack h)"

definition pushState :: "'o list \<Rightarrow> 'o list \<Rightarrow> 'o CanvasHistory \<Rightarrow> 'o CanvasHistory" where
  "pushState captured newObjects h =
     \<lparr>hist_objects = newObjects,
      undoStack = slice_from_end (MAX_HISTORY_SIZE - 1) (undoStack h) @ [captured],
      redoStack = []\<rparr>"

text \<open>
  \<open>undo\<close> and \<open>redo\<close> return \<open>null\<close> (here \<open>None\<close>) and change nothing when their stack
  is empty.
\<close>

definition undo :: "'o list \<Rightarrow> 'o CanvasHistory \<Rightarrow> 'o list option \<times> 'o CanvasHistory" where
  "undo captured h =
     (if length (undoStack h) = 0 then (None, h)
      else
        (let previousState = last (undoStack h)
         in (Some previousState,
             \<lparr>hist_objects = previousState,
              undoStack = butlast (undoStack h),
              redoStack = redoStack h @ [captured]\<rparr>)))"

definition redo :: "'o list \<Rightarrow> 'o CanvasHistory \<Rightarrow> 'o list option \<times> 'o CanvasHistory" where
  "redo captured h =
     (if length (redoStack h) = 0 then (None, h)
      else
        (let nextState = last (redoStack h)
         in (Some nextState,
             \<lparr>hist_objects = nextState,
              undoStack = undoStack h @ [captured],
              redoStack = butlast (redoStack h)\<rparr>)))"

definition setObjectsWithoutHistory :: "'o list \<Rightarrow> 'o CanvasHistory \<Rightarrow> 'o CanvasHistory" where
  "setObjectsWithoutHistory newObjects h = h\<lparr>hist_objects := newObjects\<rparr>"

definition clearHistory :: "'o CanvasHistory \<Rightarrow> 'o CanvasHistory" where
  "clearHistory h = h\<lparr>undoStack := [], redoStack := []\<rparr>"

text \<open>
  The actions as called after the hook has rendered the state: the callback has captured
  the current objects.
\<close>

definition pushState_rendered :: "'o list \<Rightarrow> 'o CanvasHistory \<Rightarrow> 'o CanvasHistory" where
  "pushState_rendered newObjects h = pushState (hist_objects h) newObjects h"

definition undo_rendered :: "'o CanvasHistory \<Rightarrow> 'o list option \<times> 'o CanvasHistory" where
  "undo_rendered h = undo (hist_objects h) h"

definition redo_rendered :: "'o CanvasHistory \<Rightarrow> 'o list option \<times> 'o CanvasHistory" where
  "redo_rendered h = redo (hist_objects h) h"

text \<open>
  The five actions as data, each of \<open>pushState\<close>, \<open>undo\<close>, \<open>redo\<close> with the snapshot
  its callback has captured, which may be any list; a run of actions on a newly created
  hook; a run of commits, each a pair of the captured snapshot and the new state; and a
  run of commits with a render after each.
\<close>

datatype 'o history_op =
    PushState "'o list" "'o list"
  | Undo "'o list"
  | Redo "'o list"
  | SetObjectsWithoutHistory "'o list"
  | ClearHistory

fun history_step :: "'o CanvasHistory \<Rightarrow> 'o history_op \<Rightarrow> 'o CanvasHistory" where
  "history_step h (PushState captured newObjects) = pushState captured newObjects h"
| "history_step h (Undo captured) = snd (undo captured h)"
| "history_step h (Redo captured) = snd (redo captured h)"
| "history_step h (SetObjectsWithoutHistory newObjects) = setObjectsWithoutHistory newObjects h"
| "history_step h ClearHistory = clearHistory h"

definition run_history :: "'o list \<Rightarrow> 'o history_op list \<Rightarrow> 'o CanvasHistory" where
  "run_history initialObjects ops = foldl history_step (useCanvasHistory initialObjects) ops"

definition commit_all ::
    "'o CanvasHistory \<Rightarrow> ('o list \<times> 'o list) list \<Rightarrow> 'o CanvasHistory" where
  "commit_all h commits =
     foldl (\<lambda>h commit. pushState (fst commit) (snd commit) h) h commits"

definition commit_each_render :: "'o CanvasHistory \<Rightarrow> 'o list list \<Rightarrow> 'o CanvasHistory" where
  "commit_each_render h states = foldl (\<lambda>h newObjects. pushState_rendered newObjects h) h states"

text \<open>
  The bound that every action keeps: the two stacks together hold at most
  \<open>MAX_HISTORY_SIZE\<close> snapshots.
\<close>

definition history_bounded :: "'o CanvasHistory \<Rightarrow> bool" where
  "history_bounded h \<longleftrightarrow> length (undoStack h) + length (redoStack h) \<le> MAX_HISTORY_SIZE"

definition states25 :: "nat list list" where
  "states25 = map (\<lambda>i. [i]) [1..<26]"

text \<open>Twenty-five commits called from the callbacks of one render of an empty canvas.\<close>

definition commits25 :: "(nat list \<times> nat list) list" where
  "commits25 = map (\<lambda>s. ([], s)) states25"

section \<open>State that arrives from the server\<close>

text \<open>
  DrawingCanvas passes its \<open>externalObjects\<close> prop, when present, to
  \<open>setObjectsWithoutHistory\<close>.
\<close>

definition externalObjects_effect ::
    "'o list option \<Rightarrow> 'o CanvasHistory \<Rightarrow> 'o CanvasHistory" where
  "externalObjects_effect externalObjects h =
     (case externalObjects of
        None \<Rightarrow> h
      | Some objs \<Rightarrow> setObjectsWithoutHistory objs h)"

text \<open>
  The position update that the client applies to a list of objects: the object with the
  given id gets the new coordinates, every other object is kept.
\<close>

definition set_position :: "string \<Rightarrow> ObjectPosition \<Rightarrow> RoomObject list \<Rightarrow> RoomObject list" where
  "set_position objectId position objs =
     map (\<lambda>obj. if obj_id obj = objectId
                then obj\<lparr>obj_x := pos_x position, obj_y := pos_y position\<rparr>
                else obj) objs"

text \<open>
  The socket handlers of the TacticsMapWithDrawing component (the drawing canvas with
  synchronisation). They compute the new list from \<open>historyState.objects\<close> as captured by
  the effect that registered them, here \<open>captured\<close>; \<open>roomObjectToCanvasObject\<close> is a
  cast.
\<close>

fun drawing_on ::
    "RoomObject list \<Rightarrow> server_event \<Rightarrow> RoomObject CanvasHistory \<Rightarrow> RoomObject CanvasHistory" where
  "drawing_on captured (room_state roomObjects) h = setObjectsWithoutHistory roomObjects h"
| "drawing_on captured (object_created newObject) h =
     setObjectsWithoutHistory (captured @ [newObject]) h"
| "drawing_on captured (object_deleted objectId) h =
     setObjectsWithoutHistory (filter (\<lambda>obj. obj_id obj \<noteq> objectId) captured) h"
| "drawing_on captured (object_updated payload) h =
     setObjectsWithoutHistory
       (set_position (payload_objectId payload) (payload_position payload) captured) h"
| "drawing_on captured pong h = h"

section \<open>The client synchronisation hook (client/src/hooks/useRoomSync.ts)\<close>


record RoomSync =
  sync_objects :: "RoomObject list"
  isConnected :: bool
  socket_present :: bool
  lastEmitTime :: "(string, int) jsmap"
  sent :: "client_event list"

text \<open>
  The hook once its mount effect has created the socket.
\<close>

definition useRoomSync :: RoomSync where
  "useRoomSync =
     \<lparr>sync_objects = [], isConnected = False, socket_present = True, lastEmitTime = [],
      sent = []\<rparr>"

text \<open>
  The handlers for \<open>connect\<close>, \<open>disconnect\<close>, \<open>room_state\<close>, \<open>object_updated\<close> and
  \<open>object_created\<close>; the hook registers none for \<open>object_deleted\<close> and \<open>pong\<close>.
\<close>

definition on_connect :: "string \<Rightarrow> RoomSync \<Rightarrow> RoomSync" where
  "on_connect rid c = c\<lparr>isConnected := True, sent := sent c @ [join_room rid]\<rparr>"

definition on_disconnect :: "RoomSync \<Rightarrow> RoomSync" where
  "on_disconnect c = c\<lparr>isConnected := False\<rparr>"

fun roomSync_on :: "string \<Rightarrow> server_event \<Rightarrow> RoomSync \<Rightarrow> RoomSync" where
  "roomSync_on rid (room_state roomObjects) c = c\<lparr>sync_objects := roomObjects\<rparr>"
| "roomSync_on rid (object_updated payload) c =
     c\<lparr>sync_objects :=
         set_position (payload_objectId payload) (payload_position payload) (sync_objects c)\<rparr>"
| "roomSync_on rid (object_created newObject) c =
     c\<lparr>sync_objects := sync_objects c @ [newObject]\<rparr>"
| "roomSync_on rid (object_deleted objectId) c = c"
| "roomSync_on rid pong c = c"



definition emitUpdateObjectForce :: "int \<Rightarrow> string \<Rightarrow> ObjectPosition \<Rightarrow> RoomSync \<Rightarrow> RoomSync" where
  "emitUpdateObjectForce now objectId position c =
     (if \<not> socket_present c \<or> \<not> isConnected c then c
      else c\<lparr>sent := sent c
                   @ [update_object \<lparr>payload_objectId = objectId, payload_position = position\<rparr>],
            lastEmitTime := Map_set objectId now (lastEmitTime c)\<rparr>)"

definition createObject :: "RoomObject \<Rightarrow> RoomSync \<Rightarrow> RoomSync" where
  "createObject object c =
     c\<lparr>sync_objects := sync_objects c @ [object],
       sent := (if socket_present c \<and> isConnected c then sent c @ [create_object object]
                else sent c)\<rparr>"

definition updateObjectLocal :: "string \<Rightarrow> ObjectPosition \<Rightarrow> RoomSync \<Rightarrow> RoomSync" where
  "updateObjectLocal objectId position c =
     c\<lparr>sync_objects := set_position objectId position (sync_objects c)\<rparr>"






text \<open>
  A connected client that shows \<open>o1\<close> and has emitted nothing, the same client after
  an emission for \<open>o1\<close> at time 1000, and sample payloads.
\<close>

definition client1 :: RoomSync where
  "client1 = \<lparr>sync_objects = [obj1], isConnected = True, socket_present = True,
              lastEmitTime = [], sent = []\<rparr>"


definition move_o2 :: UpdateObjectPayload where
  "move_o2 = \<lparr>payload_objectId = ''o2'', payload_position = \<lparr>pos_x = 50, pos_y = 50\<rparr>\<rparr>"



section \<open>Facts about the Map model\<close>

lemma Map_get_None_iff: "Map_get m k = None \<longleftrightarrow> k \<notin> fst ` set m"
  by (induction m) (auto simp: image_iff split: if_splits)

lemma Map_remove_absent: "Map_get m k = None \<Longrightarrow> Map_remove k m = m"
  by (induction m) (auto split: if_splits)

lemma Map_set_same: "Map_get m k = Some v \<Longrightarrow> Map_set k v m = m"
  by (induction m) (auto split: if_splits)

lemma Map_get_set: "Map_get (Map_set k v m) k' = (if k' = k then Some v else Map_get m k')"
  by (induction m) auto

section \<open>Missing rooms and missing objects\<close>

text \<open>
  C3. \<open>updateObjectPosition\<close> and \<open>deleteObject\<close> on a room id that the store does not
  hold, or on an object id that the room does not hold, return \<open>false\<close> and give back
  the store they were given. The model has no error value because the source has no
  \<open>throw\<close> on these paths: \<open>Map.get\<close> and \<open>Map.delete\<close> return \<open>undefined\<close> and
  \<open>false\<close> on a missing key.
\<close>

theorem missing_entity_noop:
  assumes "Map_get rooms rid = None
           \<or> (\<exists>room. Map_get rooms rid = Some room \<and> Map_get (objects room) objectId = None)"
  shows "updateObjectPosition rooms rid objectId position = (False, rooms)
         \<and> deleteObject rooms rid objectId = (False, rooms)"
  using assms
  by (auto simp: updateObjectPosition_def deleteObject_def Map_delete_def Map_has_def
        Map_remove_absent Map_set_same)

theorem missing_entity_noop_witness:
  "(let rooms = addObject new_RoomManager ''r1''
                  \<lparr>obj_id = ''o1'', obj_x = 1, obj_y = 2, obj_type = ''catapult''\<rparr>;
        p = \<lparr>pos_x = 5, pos_y = 6\<rparr>
    in Map_get rooms ''r2'' = None
       \<and> (\<exists>room. Map_get rooms ''r1'' = Some room \<and> Map_get (objects room) ''o9'' = None)
       \<and> updateObjectPosition rooms ''r2'' ''o1'' p = (False, rooms)
       \<and> deleteObject rooms ''r2'' ''o1'' = (False, rooms)
       \<and> updateObjectPosition rooms ''r1'' ''o9'' p = (False, rooms)
       \<and> deleteObject rooms ''r1'' ''o9'' = (False, rooms))"
proof -
  define rooms where "rooms = addObject new_RoomManager ''r1''
                  \<lparr>obj_id = ''o1'', obj_x = 1, obj_y = 2, obj_type = ''catapult''\<rparr>"
  have a: "Map_get rooms ''r2'' = None"
    by (simp add: rooms_def addObject_def getOrCreateRoom_def new_RoomManager_def Let_def)
  have b: "\<exists>room. Map_get rooms ''r1'' = Some room \<and> Map_get (objects room) ''o9'' = None"
    by (simp add: rooms_def addObject_def getOrCreateRoom_def new_RoomManager_def Let_def)
  show ?thesis
    using a b
      missing_entity_noop [of rooms "''r2''" "''o1''" "\<lparr>pos_x = 5, pos_y = 6\<rparr>"]
      missing_entity_noop [of rooms "''r1''" "''o9''" "\<lparr>pos_x = 5, pos_y = 6\<rparr>"]
    unfolding rooms_def [symmetric] Let_def by blast
qed

section \<open>The store refines the reference map\<close>

lemma Map_get_set_fun: "Map_get (Map_set k v m) = (Map_get m)(k \<mapsto> v)"
  by (rule ext) (simp add: Map_get_set)

lemma keys_Map_set:
  "map fst (Map_set k v m) = (if k \<in> fst ` set m then map fst m else map fst m @ [k])"
  by (induction m) (auto simp: image_iff split: if_splits)

lemma set_Map_set: "set (Map_set k v m) \<subseteq> insert (k, v) (set m)"
  by (induction m) (auto split: if_splits)

lemma set_Map_remove: "set (Map_remove k m) \<subseteq> set m"
  by (induction m) (auto split: if_splits)

lemma keys_Map_remove: "distinct (map fst m) \<Longrightarrow> map fst (Map_remove k m) = removeAll k (map fst m)"
  by (induction m) (auto simp: image_iff)

lemma Map_get_remove:
  "distinct (map fst m) \<Longrightarrow>
   Map_get (Map_remove k m) k' = (if k' = k then None else Map_get m k')"
proof (induction m)
  case Nil
  then show ?case by simp
next
  case (Cons p ps)
  obtain a b where p: "p = (a, b)" by (cases p)
  from Cons.prems p have absent: "Map_get ps a = None" and d: "distinct (map fst ps)"
    by (simp_all add: Map_get_None_iff)
  show ?case
  proof (cases "a = k")
    case True
    with absent p show ?thesis by simp
  next
    case False
    with Cons.IH [OF d] p show ?thesis by (cases "k' = k") simp_all
  qed
qed

lemma Map_get_remove_fun:
  "distinct (map fst m) \<Longrightarrow> Map_get (Map_remove k m) = (Map_get m)(k := None)"
  by (rule ext) (simp add: Map_get_remove)

lemma Map_get_map_of: "Map_get m = map_of m"
  by (induction m) (auto simp: fun_eq_iff)

lemma keyed_Map_set: "keyed_by_id objs \<Longrightarrow> obj_id v = k \<Longrightarrow> keyed_by_id (Map_set k v objs)"
  using set_Map_set [of k v objs] by (auto simp: keyed_by_id_def keys_Map_set)

lemma keyed_Map_remove: "keyed_by_id objs \<Longrightarrow> keyed_by_id (Map_remove k objs)"
  using set_Map_remove [of k objs]
  by (auto simp: keyed_by_id_def keys_Map_remove distinct_removeAll)

lemma Map_get_mem: "Map_get m k = Some v \<Longrightarrow> (k, v) \<in> set m"
  by (induction m) (auto split: if_splits)

lemma room_objs_addObject:
  "room_objs (addObject rooms rid object) rid = Map_set (obj_id object) object (room_objs rooms rid)"
  by (simp add: room_objs_def addObject_def getOrCreateRoom_def Map_get_set Let_def
      split: option.splits)

lemma room_objs_updateObjectPosition:
  "room_objs (snd (updateObjectPosition rooms rid objectId position)) rid =
     (case Map_get (room_objs rooms rid) objectId of
        None \<Rightarrow> room_objs rooms rid
      | Some object \<Rightarrow>
          Map_set objectId (object\<lparr>obj_x := pos_x position, obj_y := pos_y position\<rparr>)
            (room_objs rooms rid))"
  by (simp add: room_objs_def updateObjectPosition_def Map_get_set split: option.splits)

lemma room_objs_deleteObject:
  "room_objs (snd (deleteObject rooms rid objectId)) rid = Map_remove objectId (room_objs rooms rid)"
  by (simp add: room_objs_def deleteObject_def Map_delete_def Map_get_set split: option.splits)

lemma apply_op_refines:
  assumes "keyed_by_id (room_objs rooms rid)"
  shows "Map_get (room_objs (apply_op rid rooms op) rid) = reference_step (Map_get (room_objs rooms rid)) op
         \<and> keyed_by_id (room_objs (apply_op rid rooms op) rid)"
proof (cases op)
  case (Create object)
  then show ?thesis
    using assms by (simp add: room_objs_addObject Map_get_set_fun keyed_Map_set)
next
  case (Update objectId position)
  show ?thesis
  proof (cases "Map_get (room_objs rooms rid) objectId")
    case None
    then show ?thesis using assms Update by (simp add: room_objs_updateObjectPosition)
  next
    case (Some object)
    then have "obj_id object = objectId"
      using assms Map_get_mem [OF Some] by (auto simp: keyed_by_id_def)
    then show ?thesis
      using assms Update Some
      by (simp add: room_objs_updateObjectPosition Map_get_set_fun keyed_Map_set)
  qed
next
  case (Delete objectId)
  from assms have "distinct (map fst (room_objs rooms rid))"
    by (simp add: keyed_by_id_def)
  then show ?thesis
    using assms Delete
    by (simp add: room_objs_deleteObject Map_get_remove_fun keyed_Map_remove)
qed

lemma apply_ops_refines:
  "keyed_by_id (room_objs rooms rid) \<Longrightarrow>
   Map_get (room_objs (apply_ops rid rooms ops) rid) = foldl reference_step (Map_get (room_objs rooms rid)) ops
   \<and> keyed_by_id (room_objs (apply_ops rid rooms ops) rid)"
  unfolding apply_ops_def
proof (induction ops arbitrary: rooms)
  case Nil
  then show ?case by simp
next
  case (Cons op ops)
  from apply_op_refines [OF Cons.prems, of op]
  have step: "Map_get (room_objs (apply_op rid rooms op) rid) = reference_step (Map_get (room_objs rooms rid)) op"
    and inv: "keyed_by_id (room_objs (apply_op rid rooms op) rid)" by simp_all
  from Cons.IH [OF inv] step show ?case by simp
qed

lemma by_id_values: "keyed_by_id objs \<Longrightarrow> by_id (Map_values objs) = Map_get objs"
proof -
  assume k: "keyed_by_id objs"
  then have "map (\<lambda>object. (obj_id object, object)) (map snd objs) = objs"
    by (induction objs) (auto simp: keyed_by_id_def)
  moreover have "map_of objs = Map_get objs" for objs :: "(string, RoomObject) jsmap"
    by (induction objs) (auto simp: fun_eq_iff)
  ultimately show ?thesis by (simp add: by_id_def Map_values_def)
qed

lemma ids_values: "keyed_by_id objs \<Longrightarrow> map obj_id (Map_values objs) = map fst objs"
  by (induction objs) (auto simp: keyed_by_id_def Map_values_def)

lemma getRoomObjects_room_objs: "getRoomObjects rooms rid = Map_values (room_objs rooms rid)"
  by (simp add: getRoomObjects_def room_objs_def Map_values_def split: option.splits)

text \<open>
  C2. For every sequence of create, update and delete operations applied to one room of
  a new store, the listing of the room is the reference map folded over the same
  operations: read by id the listing is that map, no id is listed twice, and the listed
  objects are the values of the map. The order of the listing is the insertion order of
  the Map, which the reference map does not have.
\<close>

theorem store_refines_reference_map:
  "by_id (getRoomObjects (apply_ops rid new_RoomManager ops) rid) = reference_fold ops
   \<and> distinct (map obj_id (getRoomObjects (apply_ops rid new_RoomManager ops) rid))
   \<and> set (getRoomObjects (apply_ops rid new_RoomManager ops) rid) = ran (reference_fold ops)"
proof -
  let ?objs = "room_objs (apply_ops rid new_RoomManager ops) rid"
  have start: "keyed_by_id (room_objs new_RoomManager rid)"
    by (simp add: keyed_by_id_def room_objs_def new_RoomManager_def)
  have e: "Map_get (room_objs new_RoomManager rid) = Map.empty"
    by (simp add: room_objs_def new_RoomManager_def fun_eq_iff)
  from apply_ops_refines [OF start, of ops]
  have m: "Map_get ?objs = reference_fold ops" and k: "keyed_by_id ?objs"
    by (simp_all add: reference_fold_def e)
  have 1: "by_id (getRoomObjects (apply_ops rid new_RoomManager ops) rid) = reference_fold ops"
    using m k by (simp add: getRoomObjects_room_objs by_id_values)
  have 2: "distinct (map obj_id (getRoomObjects (apply_ops rid new_RoomManager ops) rid))"
    using k by (simp add: getRoomObjects_room_objs ids_values keyed_by_id_def)
  have 3: "set (getRoomObjects (apply_ops rid new_RoomManager ops) rid) = ran (reference_fold ops)"
    using m [symmetric] k
    by (simp add: getRoomObjects_room_objs Map_values_def Map_get_map_of ran_distinct
        keyed_by_id_def)
  from 1 2 3 show ?thesis by simp
qed

section \<open>The relay: echo suppression, unjoined sockets, deletion\<close>

text \<open>
  C4. The sender of \<open>create_object\<close> or \<open>update_object\<close> receives nothing from its own
  event. From a socket that has joined room \<open>rid\<close>, \<open>create_object\<close> is emitted as
  \<open>object_created\<close> to the room without the sender, and \<open>update_object\<close> is emitted as
  \<open>object_updated\<close>, with the payload received, to the room without the sender exactly
  when \<open>updateObjectPosition\<close> returned true; when it returned false nothing is emitted.
\<close>

theorem relay_echo_suppression:
  "received_by (socket_id socket) (event_effects (create_object object) socket server) = []
   \<and> received_by (socket_id socket) (event_effects (update_object payload) socket server) = []
   \<and> (truthy_roomId socket = Some rid \<longrightarrow>
        emits (event_effects (create_object object) socket server)
          = [(adapter_rooms server rid - {socket_id socket}, object_created object)]
        \<and> emits (event_effects (update_object payload) socket server)
          = (if fst (updateObjectPosition (roomManager server) rid
                       (payload_objectId payload) (payload_position payload))
             then [(adapter_rooms server rid - {socket_id socket}, object_updated payload)]
             else []))"
  by (auto simp: received_by_def event_effects_def to_room_def split: option.splits prod.splits)

theorem relay_echo_suppression_witness:
  "truthy_roomId sock_a = Some ''r1''
   \<and> emits (event_effects (create_object obj1) sock_a server1) = [({''b''}, object_created obj1)]
   \<and> emits (event_effects (update_object
          \<lparr>payload_objectId = ''o1'', payload_position = \<lparr>pos_x = 50, pos_y = 50\<rparr>\<rparr>) sock_a server1)
        = [({''b''}, object_updated \<lparr>payload_objectId = ''o1'', payload_position = \<lparr>pos_x = 50, pos_y = 50\<rparr>\<rparr>)]
   \<and> emits (event_effects (update_object
          \<lparr>payload_objectId = ''o2'', payload_position = \<lparr>pos_x = 50, pos_y = 50\<rparr>\<rparr>) sock_a server1)
        = []"
proof -
  have j: "truthy_roomId sock_a = Some ''r1''"
    by (simp add: truthy_roomId_def sock_a_def)
  have m: "adapter_rooms server1 ''r1'' - {socket_id sock_a} = {''b''}"
    by (auto simp: server1_def sock_a_def)
  have u1: "fst (updateObjectPosition (roomManager server1) ''r1'' ''o1'' \<lparr>pos_x = 50, pos_y = 50\<rparr>)"
    by (simp add: server1_def updateObjectPosition_def addObject_def getOrCreateRoom_def
        new_RoomManager_def obj1_def Let_def)
  have u2: "\<not> fst (updateObjectPosition (roomManager server1) ''r1'' ''o2'' \<lparr>pos_x = 50, pos_y = 50\<rparr>)"
    by (simp add: server1_def updateObjectPosition_def addObject_def getOrCreateRoom_def
        new_RoomManager_def obj1_def Let_def)
  show ?thesis
    using j m u1 u2
      relay_echo_suppression [of sock_a obj1 server1
        "\<lparr>payload_objectId = ''o1'', payload_position = \<lparr>pos_x = 50, pos_y = 50\<rparr>\<rparr>" "''r1''"]
      relay_echo_suppression [of sock_a obj1 server1
        "\<lparr>payload_objectId = ''o2'', payload_position = \<lparr>pos_x = 50, pos_y = 50\<rparr>\<rparr>" "''r1''"]
    by simp
qed

text \<open>
  C9. For a socket that has not joined (\<open>socket.data.roomId\<close> is undefined),
  \<open>update_object\<close> and \<open>create_object\<close> leave the socket and the server, the store
  included, as they were; the only effect is one console warning, and nothing is emitted
  to any socket.
\<close>

theorem unjoined_socket_dropped:
  assumes "data_roomId socket = None"
  shows "on_event (update_object payload) socket server
           = (socket, server,
              [Console_warn (''User '' @ socket_id socket
                             @ '' tried to update object without joining a room'')])
         \<and> on_event (create_object object) socket server
           = (socket, server,
              [Console_warn (''User '' @ socket_id socket
                             @ '' tried to create object without joining a room'')])
         \<and> emits (event_effects (update_object payload) socket server) = []
         \<and> emits (event_effects (create_object object) socket server) = []"
  using assms by (simp add: truthy_roomId_def event_effects_def)

theorem unjoined_socket_dropped_witness:
  "data_roomId \<lparr>socket_id = ''c'', data_roomId = None\<rparr> = None
   \<and> on_event (update_object \<lparr>payload_objectId = ''o1'', payload_position = \<lparr>pos_x = 50, pos_y = 50\<rparr>\<rparr>)
        \<lparr>socket_id = ''c'', data_roomId = None\<rparr> server1
       = (\<lparr>socket_id = ''c'', data_roomId = None\<rparr>, server1,
          [Console_warn ''User c tried to update object without joining a room''])
   \<and> on_event (create_object obj1) \<lparr>socket_id = ''c'', data_roomId = None\<rparr> server1
       = (\<lparr>socket_id = ''c'', data_roomId = None\<rparr>, server1,
          [Console_warn ''User c tried to create object without joining a room''])"
  using unjoined_socket_dropped [of "\<lparr>socket_id = ''c'', data_roomId = None\<rparr>"
      "\<lparr>payload_objectId = ''o1'', payload_position = \<lparr>pos_x = 50, pos_y = 50\<rparr>\<rparr>" server1 obj1]
  by simp

text \<open>
  C1. The relay at a \<open>delete_object\<close> event: socket \<open>a\<close> has joined room \<open>r1\<close>, which
  holds \<open>o1\<close> and has the other member \<open>b\<close>, and \<open>deleteObject\<close> on the store would
  succeed. The event changes nothing and emits nothing: the object is still listed and
  \<open>b\<close> is not told.
\<close>

theorem delete_object_has_no_handler:
  "on_event (delete_object ''o1'') sock_a server1 = (sock_a, server1, [])
   \<and> getRoomObjects (store_after (delete_object ''o1'') sock_a server1) ''r1'' = [obj1]
   \<and> fst (deleteObject (roomManager server1) ''r1'' ''o1'')
   \<and> adapter_rooms server1 ''r1'' - {socket_id sock_a} = {''b''}
   \<and> emits (event_effects (delete_object ''o1'') sock_a server1) = []"
  by (auto simp: store_after_def event_effects_def server1_def sock_a_def obj1_def getRoomObjects_def
      addObject_def getOrCreateRoom_def new_RoomManager_def Let_def Map_values_def
      deleteObject_def Map_delete_def Map_has_def)

section \<open>The history: commit, undo, redo\<close>

text \<open>
  What the three actions return and leave behind, for any captured snapshots: \<open>undo\<close>
  returns the snapshot the last \<open>pushState\<close> had captured, \<open>redo\<close> returns the snapshot
  that \<open>undo\<close> had captured, and a \<open>pushState\<close> after an \<open>undo\<close> leaves nothing to redo.
\<close>

lemma commit_undo_redo_captured:
  "fst (undo c3 (pushState c2 B (pushState c1 A h))) = Some c2
   \<and> hist_objects (snd (undo c3 (pushState c2 B (pushState c1 A h)))) = c2
   \<and> fst (redo c4 (snd (undo c3 (pushState c2 B (pushState c1 A h))))) = Some c3
   \<and> hist_objects (snd (redo c4 (snd (undo c3 (pushState c2 B (pushState c1 A h)))))) = c3
   \<and> redoStack (pushState c5 C (snd (undo c3 h'))) = []
   \<and> fst (redo c6 (pushState c5 C (snd (undo c3 h')))) = None"
  by (simp add: undo_def redo_def pushState_def Let_def)

text \<open>
  With a render after each action the hook does what the history manager is to do:
  after \<open>pushState A\<close> and \<open>pushState B\<close>, \<open>undo\<close> returns \<open>A\<close> and makes it current, a
  following \<open>redo\<close> returns \<open>B\<close> and makes it current, and \<open>pushState C\<close> after the
  \<open>undo\<close> empties the redo stack, so that a following \<open>redo\<close> returns \<open>null\<close>.
\<close>

lemma commit_undo_redo_rendered:
  "fst (undo_rendered (pushState_rendered B (pushState_rendered A h))) = Some A
   \<and> hist_objects (snd (undo_rendered (pushState_rendered B (pushState_rendered A h)))) = A
   \<and> fst (redo_rendered (snd (undo_rendered (pushState_rendered B (pushState_rendered A h)))))
       = Some B
   \<and> hist_objects
         (snd (redo_rendered (snd (undo_rendered (pushState_rendered B (pushState_rendered A h))))))
       = B
   \<and> canRedo (snd (undo_rendered (pushState_rendered B (pushState_rendered A h))))
   \<and> redoStack
         (pushState_rendered C (snd (undo_rendered (pushState_rendered B (pushState_rendered A h)))))
       = []
   \<and> fst (redo_rendered
         (pushState_rendered C (snd (undo_rendered (pushState_rendered B (pushState_rendered A h))))))
       = None"
  by (simp add: undo_rendered_def redo_rendered_def pushState_rendered_def undo_def redo_def
      pushState_def canRedo_def Let_def)

text \<open>
  C5. The hook where the three calls come from the callbacks of one render: on a new hook
  with an empty canvas, \<open>pushState [1]\<close>, \<open>pushState [2]\<close> and \<open>undo\<close> all have captured
  the empty list. Both commits push the empty list, so the undo stack is \<open>[[], []]\<close>,
  and \<open>undo\<close> returns the empty list and makes it current, where the history manager is
  to return \<open>[1]\<close>; a following \<open>redo\<close> from the same render returns the empty list as
  well, where it is to return \<open>[2]\<close>.
\<close>

theorem same_render_undo_is_stale:
  "undoStack (pushState [] [2] (pushState [] [1] (useCanvasHistory ([] :: nat list))))
     = [[], []]
   \<and> fst (undo [] (pushState [] [2] (pushState [] [1] (useCanvasHistory ([] :: nat list)))))
     = Some []
   \<and> hist_objects
         (snd (undo [] (pushState [] [2] (pushState [] [1] (useCanvasHistory ([] :: nat list))))))
     = []
   \<and> fst (redo []
         (snd (undo [] (pushState [] [2] (pushState [] [1] (useCanvasHistory ([] :: nat list)))))))
     = Some []"
  by (simp add: undo_def redo_def pushState_def useCanvasHistory_def slice_from_end_def
      MAX_HISTORY_SIZE_def Let_def)

section \<open>The history: capacity\<close>

lemma undo_bounded: "history_bounded h \<Longrightarrow> history_bounded (snd (undo captured h))"
  by (cases "undoStack h") (simp_all add: history_bounded_def undo_def Let_def)

lemma redo_bounded: "history_bounded h \<Longrightarrow> history_bounded (snd (redo captured h))"
  by (cases "redoStack h") (simp_all add: history_bounded_def redo_def Let_def)

lemma pushState_bounded: "history_bounded (pushState captured newObjects h)"
  by (simp add: history_bounded_def pushState_def slice_from_end_def MAX_HISTORY_SIZE_def)

lemma history_step_bounded: "history_bounded h \<Longrightarrow> history_bounded (history_step h op)"
  by (cases op)
    (simp_all add: undo_bounded redo_bounded pushState_bounded,
     simp_all add: history_bounded_def setObjectsWithoutHistory_def clearHistory_def)

lemma foldl_history_bounded:
  "history_bounded h \<Longrightarrow> history_bounded (foldl history_step h ops)"
  by (induction ops arbitrary: h) (simp_all add: history_step_bounded)

lemma run_history_bounded: "history_bounded (run_history initialObjects ops)"
  unfolding run_history_def
  by (rule foldl_history_bounded) (simp add: history_bounded_def useCanvasHistory_def)

lemma slice_from_end_snoc: "slice_from_end (Suc n) (xs @ [x]) = slice_from_end n xs @ [x]"
  by (simp add: slice_from_end_def)

lemma slice_from_end_twice:
  assumes "m \<le> n"
  shows "slice_from_end m (slice_from_end n xs) = slice_from_end m xs"
proof -
  have "length xs - (length xs - n + m) + (length xs - n) = length xs - m"
    using assms by arith
  then show ?thesis by (simp add: slice_from_end_def)
qed

lemma commit_all_snoc:
  "commit_all h (commits @ [commit]) = pushState (fst commit) (snd commit) (commit_all h commits)"
  by (simp add: commit_all_def)

text \<open>
  After at least one commit the undo stack is the last 20 of the snapshots it held
  followed by the captured ones, and the current state is the one committed last.
\<close>

lemma commit_all_stack:
  "commits \<noteq> [] \<Longrightarrow>
   undoStack (commit_all h commits)
     = slice_from_end MAX_HISTORY_SIZE (undoStack h @ map fst commits)
   \<and> hist_objects (commit_all h commits) = snd (last commits)"
proof (induction commits rule: rev_induct)
  case Nil
  then show ?case by simp
next
  case (snoc commit commits)
  show ?case
  proof (cases "commits = []")
    case True
    then show ?thesis
      using slice_from_end_snoc [of 19 "undoStack h" "fst commit"]
      by (simp add: commit_all_def pushState_def MAX_HISTORY_SIZE_def)
  next
    case False
    from snoc.IH [OF False]
    have u: "undoStack (commit_all h commits)
               = slice_from_end MAX_HISTORY_SIZE (undoStack h @ map fst commits)"
      by simp
    have "slice_from_end MAX_HISTORY_SIZE (undoStack h @ map fst (commits @ [commit]))
            = slice_from_end 19 (undoStack h @ map fst commits) @ [fst commit]"
      using slice_from_end_snoc [of 19 "undoStack h @ map fst commits" "fst commit"]
      by (simp add: MAX_HISTORY_SIZE_def)
    then show ?thesis
      using u slice_from_end_twice [of 19 20 "undoStack h @ map fst commits"]
      by (simp add: commit_all_snoc pushState_def MAX_HISTORY_SIZE_def)
  qed
qed

text \<open>
  Commits with a render after each are commits whose captured snapshots are the state
  before the first commit and then each committed state but the last.
\<close>

lemma commit_each_render_commit_all:
  "commit_each_render h states = commit_all h (zip (hist_objects h # butlast states) states)"
proof (induction states arbitrary: h)
  case Nil
  then show ?case by (simp add: commit_each_render_def commit_all_def)
next
  case (Cons s ss)
  have o: "hist_objects (pushState_rendered s h) = s"
    by (simp add: pushState_rendered_def pushState_def)
  have "commit_each_render h (s # ss) = commit_each_render (pushState_rendered s h) ss"
    by (simp add: commit_each_render_def)
  also have "\<dots> = commit_all (pushState_rendered s h) (zip (s # butlast ss) ss)"
    using Cons.IH [of "pushState_rendered s h"] o by simp
  also have "\<dots> = commit_all h (zip (hist_objects h # butlast (s # ss)) (s # ss))"
    by (cases ss) (simp_all add: commit_all_def pushState_rendered_def)
  finally show ?case .
qed

text \<open>
  C6. After any sequence of \<open>pushState\<close>, \<open>undo\<close>, \<open>redo\<close>,
  \<open>setObjectsWithoutHistory\<close> and \<open>clearHistory\<close> on a newly created hook, whatever
  snapshots the callbacks have captured, each stack holds at most 20 snapshots.
  Committing 25 states in a row, from any state \<open>h\<close>, leaves exactly 20 snapshots on the
  undo stack: of the 25 snapshots the commits pushed the oldest 5 are gone and the other
  20 are kept in order. With a render after each commit the pushed snapshots are the
  state of \<open>h\<close> and the first 24 committed states.
\<close>

theorem history_capacity:
  "length (undoStack (run_history initialObjects ops)) \<le> 20
   \<and> length (redoStack (run_history initialObjects ops)) \<le> 20
   \<and> (length commits = 25 \<longrightarrow>
        undoStack (commit_all h commits) = drop 5 (map fst commits)
        \<and> undoCount (commit_all h commits) = 20
        \<and> hist_objects (commit_all h commits) = snd (last commits))
   \<and> (length states = 25 \<longrightarrow>
        undoStack (commit_each_render h states) = drop 5 (hist_objects h # butlast states)
        \<and> undoCount (commit_each_render h states) = 20
        \<and> hist_objects (commit_each_render h states) = last states)"
proof -
  have b: "length (undoStack (run_history initialObjects ops)) \<le> 20
           \<and> length (redoStack (run_history initialObjects ops)) \<le> 20"
    using run_history_bounded [of initialObjects ops]
    by (simp add: history_bounded_def MAX_HISTORY_SIZE_def)
  have c: "undoStack (commit_all g cs) = drop 5 (map fst cs)
        \<and> undoCount (commit_all g cs) = 20
        \<and> hist_objects (commit_all g cs) = snd (last cs)"
    if l: "length cs = 25" for g :: "'b CanvasHistory" and cs
  proof -
    from l have ne: "cs \<noteq> []" by auto
    have "slice_from_end MAX_HISTORY_SIZE (undoStack g @ map fst cs) = drop 5 (map fst cs)"
      using l by (simp add: slice_from_end_def MAX_HISTORY_SIZE_def)
    then show ?thesis
      using commit_all_stack [OF ne, of g] l by (simp add: undoCount_def)
  qed
  have d: "undoStack (commit_each_render h states) = drop 5 (hist_objects h # butlast states)
        \<and> undoCount (commit_each_render h states) = 20
        \<and> hist_objects (commit_each_render h states) = last states"
    if l: "length states = 25"
  proof -
    let ?cs = "zip (hist_objects h # butlast states) states"
    from l have ne: "states \<noteq> []" by auto
    from l have len: "length (hist_objects h # butlast states) = length states" by simp
    from len l have lcs: "length ?cs = 25" by simp
    have f: "map fst ?cs = hist_objects h # butlast states"
      using len by (rule map_fst_zip)
    have "snd (last ?cs) = last (map snd ?cs)"
      using lcs by (subst last_map) auto
    also have "map snd ?cs = states"
      using len by (rule map_snd_zip)
    finally have g: "snd (last ?cs) = last states" .
    from c [OF lcs, of h] f g show ?thesis
      by (simp add: commit_each_render_commit_all)
  qed
  from b c [of commits h] d show ?thesis by blast
qed

theorem history_capacity_witness:
  "length commits25 = 25
   \<and> undoStack (commit_all (useCanvasHistory []) commits25) = drop 5 (map fst commits25)
   \<and> undoCount (commit_all (useCanvasHistory []) commits25) = 20
   \<and> length states25 = 25
   \<and> undoStack (commit_each_render (useCanvasHistory []) states25)
       = drop 5 ([] # butlast states25)
   \<and> undoCount (commit_each_render (useCanvasHistory []) states25) = 20"
proof -
  have l: "length states25 = 25" by (simp add: states25_def)
  have k: "length commits25 = 25" by (simp add: commits25_def states25_def)
  have i: "hist_objects (useCanvasHistory ([] :: nat list)) = []"
    by (simp add: useCanvasHistory_def)
  show ?thesis
    using l k i
      history_capacity [where initialObjects = "[] :: nat list" and ops = "[]"
        and commits = commits25 and states = states25 and h = "useCanvasHistory []"]
    by simp
qed

section \<open>The history: state set without history\<close>

text \<open>
  C7. \<open>setObjectsWithoutHistory\<close> makes the new list the current state and leaves both
  stacks, \<open>canUndo\<close>, \<open>canRedo\<close> and the two counts as they were. The paths on which
  state from the server reaches the history (the \<open>externalObjects\<close> effect of
  DrawingCanvas, and the handlers for \<open>room_state\<close>, \<open>object_created\<close>,
  \<open>object_deleted\<close> and \<open>object_updated\<close>) leave both stacks as they were.
\<close>

theorem setObjectsWithoutHistory_frame:
  "hist_objects (setObjectsWithoutHistory newObjects h) = newObjects
   \<and> undoStack (setObjectsWithoutHistory newObjects h) = undoStack h
   \<and> redoStack (setObjectsWithoutHistory newObjects h) = redoStack h
   \<and> canUndo (setObjectsWithoutHistory newObjects h) = canUndo h
   \<and> canRedo (setObjectsWithoutHistory newObjects h) = canRedo h
   \<and> undoCount (setObjectsWithoutHistory newObjects h) = undoCount h
   \<and> redoCount (setObjectsWithoutHistory newObjects h) = redoCount h
   \<and> undoStack (externalObjects_effect externalObjects h) = undoStack h
   \<and> redoStack (externalObjects_effect externalObjects h) = redoStack h
   \<and> undoStack (drawing_on captured ev g) = undoStack g
   \<and> redoStack (drawing_on captured ev g) = redoStack g"
  by (cases ev)
    (simp_all add: setObjectsWithoutHistory_def externalObjects_effect_def canUndo_def canRedo_def
      undoCount_def redoCount_def split: option.splits)

section \<open>The client: updates for unknown objects\<close>

lemma set_position_absent:
  "objectId \<notin> obj_id ` set objs \<Longrightarrow> set_position objectId position objs = objs"
  by (induction objs) (auto simp: set_position_def)

text \<open>
  C10. When no local object has the id of an inbound \<open>object_updated\<close>, or of a call
  to \<open>updateObjectLocal\<close>, the state of the hook is what it was: the list of objects is
  the same, nothing is appended, and there is no error path.
\<close>

theorem unknown_object_update_ignored:
  assumes "payload_objectId payload \<notin> obj_id ` set (sync_objects c)"
  shows "roomSync_on rid (object_updated payload) c = c
         \<and> updateObjectLocal (payload_objectId payload) (payload_position payload) c = c"
  using assms by (simp add: updateObjectLocal_def set_position_absent)

theorem unknown_object_update_ignored_witness:
  "payload_objectId move_o2 \<notin> obj_id ` set (sync_objects client1)
   \<and> roomSync_on ''r1'' (object_updated move_o2) client1 = client1
   \<and> updateObjectLocal ''o2'' \<lparr>pos_x = 50, pos_y = 50\<rparr> client1 = client1"
proof -
  have a: "payload_objectId move_o2 \<notin> obj_id ` set (sync_objects client1)"
    by (simp add: move_o2_def client1_def obj1_def)
  from unknown_object_update_ignored [OF a, of "''r1''"] a show ?thesis
    by (simp add: move_o2_def)
qed

section \<open>The client: throttled emission\<close>




end
